theory Spec2Isabelle
  imports Main
begin

unbundle bit_operations_syntax

section \<open>go-md2man: the roff renderer (md2man/roff.go)\<close>

text \<open>
  A Go \<open>byte\<close> is a \<open>char\<close> (8 bits), a \<open>[]byte\<close> or \<open>string\<close> is a \<open>string\<close>.
  The \<open>io.Writer\<close> a function writes to is modelled by the list of the writes the function
  performs, in order, one element per \<open>Write\<close>/\<open>WriteString\<close> call; the bytes that reach
  the sink are the concatenation of that list.
\<close>

subsection \<open>Character escaping\<close>

definition backslash :: char where
  "backslash = CHR 0x5C"

definition apostrophe :: char where
  "apostrophe = CHR 0x27"

text \<open>The byte string \<open>"-_&\\~"\<close> that \<open>needsBackslash\<close> ranges over.\<close>

definition escapeSet :: string where
  "escapeSet = [CHR ''-'', CHR ''_'', CHR ''&'', backslash, CHR ''~'']"

text \<open>The loop \<open>for _, r := range ... { if c == r { return true } }; return false\<close>.\<close>

fun needsBackslashIn :: "char \<Rightarrow> string \<Rightarrow> bool" where
  "needsBackslashIn c [] = False"
| "needsBackslashIn c (r # rs) = (if c = r then True else needsBackslashIn c rs)"

definition needsBackslash :: "char \<Rightarrow> bool" where
  "needsBackslash c = needsBackslashIn c escapeSet"

text \<open>The string \<open>"\\&"\<close> written by \<open>io.WriteString(w, "\\&")\<close>.\<close>

definition escapePrefix :: string where
  "escapePrefix = [backslash, CHR ''&'']"

text \<open>
  The inner loop \<open>for i < len(text) && !needsBackslash(text[i]) { i++ }\<close>: the value of
  \<open>i\<close> when it stops.
\<close>

function scanNormal :: "string \<Rightarrow> nat \<Rightarrow> nat" where
  "scanNormal tx i =
     (if i < length tx \<and> \<not> needsBackslash (tx ! i) then scanNormal tx (Suc i) else i)"
  by pat_completeness auto
termination
  by (relation "measure (\<lambda>(tx, i). length tx - i)") auto

declare scanNormal.simps [simp del]

lemma scanNormal_step:
  "i < length tx \<Longrightarrow> \<not> needsBackslash (tx ! i) \<Longrightarrow> scanNormal tx i = scanNormal tx (Suc i)"
  by (simp add: scanNormal.simps [of tx i])

lemma scanNormal_stop_end: "length tx \<le> i \<Longrightarrow> scanNormal tx i = i"
  by (simp add: scanNormal.simps [of tx i])

lemma scanNormal_stop_special:
  "i < length tx \<Longrightarrow> needsBackslash (tx ! i) \<Longrightarrow> scanNormal tx i = i"
  by (simp add: scanNormal.simps [of tx i])

lemma scanNormal_ge: "i \<le> scanNormal tx i"
proof (induction tx i rule: scanNormal.induct)
  case (1 tx i)
  show ?case
  proof (cases "i < length tx \<and> \<not> needsBackslash (tx ! i)")
    case True
    with "1" have "Suc i \<le> scanNormal tx (Suc i)" by blast
    with True show ?thesis by (simp add: scanNormal_step)
  next
    case False
    then have "scanNormal tx i = i"
      by (cases "i < length tx") (simp_all add: scanNormal_stop_end scanNormal_stop_special)
    then show ?thesis by simp
  qed
qed

text \<open>
  The outer loop of \<open>escapeSpecialChars\<close> from index \<open>i\<close> on: the writes of one iteration
  (the prefix test, the copied run \<open>text[org:i]\<close>, the backslash and the escaped byte),
  followed by those of the iterations after the loop's \<open>i++\<close>. The \<open>break\<close> ends the list.
\<close>

function escapeFrom :: "string \<Rightarrow> nat \<Rightarrow> string list" where
  "escapeFrom tx i =
     (if i < length tx then
        (let pre = (if 1 \<le> length tx \<and> (tx ! 0 = apostrophe \<or> tx ! 0 = CHR ''.'')
                    then [escapePrefix] else []);
             org = i;
             j = scanNormal tx i;
             run = (if org < j then [take (j - org) (drop org tx)] else [])
         in if length tx \<le> j then pre @ run
            else pre @ run @ [[backslash], [tx ! j]] @ escapeFrom tx (Suc j))
      else [])"
  by pat_completeness auto
termination
proof (relation "measure (\<lambda>(tx, i). length tx - i)")
  show "wf (measure (\<lambda>(tx, i). length tx - i))" by simp
next
  fix tx :: string and i x xa xb xc
  assume "i < length tx" and "xa = i" and "xb = scanNormal tx i"
    and "\<not> length tx \<le> xb"
  moreover have "i \<le> scanNormal tx i" by (rule scanNormal_ge)
  ultimately show "((tx, Suc xb), tx, i) \<in> measure (\<lambda>(tx, i). length tx - i)"
    by simp
qed

declare escapeFrom.simps [simp del]

definition escapeSpecialChars :: "string \<Rightarrow> string list" where
  "escapeSpecialChars tx = escapeFrom tx 0"

text \<open>
  The bytes the escaping routine is compared with, byte by byte of the input: a byte of the
  escape set is written as one backslash followed by the byte, any other byte is copied;
  \<open>pre\<close> is written before the first byte and before every byte that directly follows an
  escaped byte. Nothing else is written.
\<close>

fun escapedFrom :: "string \<Rightarrow> bool \<Rightarrow> string \<Rightarrow> string" where
  "escapedFrom pre start [] = []"
| "escapedFrom pre start (c # cs) =
     (if start then pre else []) @
     (if c \<in> {CHR ''-'', CHR ''_'', CHR ''&'', CHR 0x5C, CHR ''~''}
      then [CHR 0x5C, c] @ escapedFrom pre True cs
      else [c] @ escapedFrom pre False cs)"

subsection \<open>The syntax tree\<close>

datatype NodeType =
    Document | BlockQuote | List | Item | Paragraph | Heading | HorizontalRule
  | Emph | Strong | Del | Link | Image | Text | HTMLBlock | CodeBlock | Softbreak
  | Hardbreak | Code | HTMLSpan | Table | TableCell | TableHead | TableBody | TableRow

datatype Node =
  Node (Type: NodeType) (Literal: string) (Level: int) (ListFlags: int) (IsHeader: bool)
       (Destination: string) (Children: "Node list")

definition ListTypeOrdered :: int where
  "ListTypeOrdered = 1"

definition ListTypeDefinition :: int where
  "ListTypeDefinition = 2"

record NodeRef =
  node :: Node
  Parent :: "Node option"
  Prev :: "Node option"
  position :: "nat list"

datatype WalkStatus = GoToNext | SkipChildren | Terminate

datatype fault = NilPointerDereference | IndexOutOfRange | SliceBoundsOutOfRange
  | NegativeRepeatCount

definition IsContainer :: "Node \<Rightarrow> bool" where
  "IsContainer n =
     (case Type n of
        Document \<Rightarrow> True | BlockQuote \<Rightarrow> True | List \<Rightarrow> True | Item \<Rightarrow> True
      | Paragraph \<Rightarrow> True | Heading \<Rightarrow> True | Emph \<Rightarrow> True | Strong \<Rightarrow> True
      | Del \<Rightarrow> True | Link \<Rightarrow> True | Image \<Rightarrow> True | Table \<Rightarrow> True
      | TableHead \<Rightarrow> True | TableBody \<Rightarrow> True | TableRow \<Rightarrow> True | TableCell \<Rightarrow> True
      | _ \<Rightarrow> False)"

fun walkNode ::
    "(NodeRef \<Rightarrow> bool \<Rightarrow> 's \<Rightarrow> fault + WalkStatus \<times> 's) \<Rightarrow>
     nat list \<Rightarrow> Node option \<Rightarrow> Node option \<Rightarrow> Node \<Rightarrow> 's \<Rightarrow> fault + bool \<times> 's"
  and walkChildren ::
    "(NodeRef \<Rightarrow> bool \<Rightarrow> 's \<Rightarrow> fault + WalkStatus \<times> 's) \<Rightarrow>
     nat list \<Rightarrow> Node \<Rightarrow> Node option \<Rightarrow> nat \<Rightarrow> Node list \<Rightarrow> 's \<Rightarrow> fault + bool \<times> 's"
  where
  "walkNode visitor pos par prv (Node ty lit lvl fl hdr dst cs) s =
     (let n = Node ty lit lvl fl hdr dst cs;
          ref = \<lparr>node = n, Parent = par, Prev = prv, position = pos\<rparr>
      in case visitor ref True s of
           Inl e \<Rightarrow> Inl e
         | Inr (Terminate, s1) \<Rightarrow> Inr (True, s1)
         | Inr (SkipChildren, s1) \<Rightarrow> Inr (False, s1)
         | Inr (GoToNext, s1) \<Rightarrow>
             if \<not> IsContainer n then Inr (False, s1)
             else (case walkChildren visitor pos n None 0 cs s1 of
                     Inl e \<Rightarrow> Inl e
                   | Inr (True, s2) \<Rightarrow> Inr (True, s2)
                   | Inr (False, s2) \<Rightarrow>
                       (case visitor ref False s2 of
                          Inl e \<Rightarrow> Inl e
                        | Inr (st, s3) \<Rightarrow> Inr (st = Terminate, s3))))"
| "walkChildren visitor pos par prv k [] s = Inr (False, s)"
| "walkChildren visitor pos par prv k (c # cs) s =
     (case walkNode visitor (pos @ [k]) (Some par) prv c s of
        Inl e \<Rightarrow> Inl e
      | Inr (True, s1) \<Rightarrow> Inr (True, s1)
      | Inr (False, s1) \<Rightarrow> walkChildren visitor pos par (Some c) (Suc k) cs s1)"

declare walkNode.simps [simp del]

definition Walk ::
    "NodeRef \<Rightarrow> (NodeRef \<Rightarrow> bool \<Rightarrow> 's \<Rightarrow> fault + WalkStatus \<times> 's) \<Rightarrow> 's \<Rightarrow> fault + bool \<times> 's" where
  "Walk ref visitor s = walkNode visitor (position ref) (Parent ref) (Prev ref) (node ref) s"

definition countColumnsVisitor :: "NodeRef \<Rightarrow> bool \<Rightarrow> int \<Rightarrow> fault + WalkStatus \<times> int" where
  "countColumnsVisitor ref entering columns =
     (case Type (node ref) of
        TableRow \<Rightarrow>
          if \<not> entering then Inr (Terminate, columns) else Inr (Terminate, columns)
      | TableCell \<Rightarrow> Inr (Terminate, columns + 1)
      | _ \<Rightarrow> Inr (GoToNext, columns))"

definition countColumns :: "NodeRef \<Rightarrow> fault + int" where
  "countColumns ref =
     (case Walk ref countColumnsVisitor 0 of Inl e \<Rightarrow> Inl e | Inr (stopped, columns) \<Rightarrow> Inr columns)"


subsection \<open>The renderer\<close>

record roffRenderer =
  ListCounters :: "int list"
  firstHeader :: bool
  defineTerm :: bool
  inList :: bool

definition nl :: char where
  "nl = CHR 0x0A"

definition tab :: char where
  "tab = CHR 0x09"

definition dquote :: char where
  "dquote = CHR 0x22"

definition titleHeader :: string where
  "titleHeader = ''.TH ''"

definition topLevelHeader :: string where
  "topLevelHeader = [nl, nl] @ ''.SH ''"

definition secondLevelHdr :: string where
  "secondLevelHdr = [nl] @ ''.SH ''"

definition otherHeader :: string where
  "otherHeader = [nl] @ ''.SS ''"

definition crTag :: string where
  "crTag = [nl]"

definition emphTag :: string where
  "emphTag = [backslash] @ ''fI''"

definition emphCloseTag :: string where
  "emphCloseTag = [backslash] @ ''fP''"

definition strongTag :: string where
  "strongTag = [backslash] @ ''fB''"

definition strongCloseTag :: string where
  "strongCloseTag = [backslash] @ ''fP''"

definition breakTag :: string where
  "breakTag = [nl] @ ''.br'' @ [nl]"

definition paraTag :: string where
  "paraTag = [nl] @ ''.PP'' @ [nl]"

definition hruleTag :: string where
  "hruleTag = [nl] @ ''.ti 0'' @ [nl, backslash] @ ''l'' @ [apostrophe, backslash] @ ''n(.lu''
              @ [apostrophe, nl]"

definition linkTag :: string where
  "linkTag = [nl, backslash] @ ''[la]''"

definition linkCloseTag :: string where
  "linkCloseTag = [backslash] @ ''[ra]''"

definition codespanTag :: string where
  "codespanTag = [backslash] @ ''fB'' @ [backslash] @ ''fC''"

definition codespanCloseTag :: string where
  "codespanCloseTag = [backslash] @ ''fR''"

definition codeTag :: string where
  "codeTag = [nl] @ ''.PP'' @ [nl] @ ''.RS'' @ [nl, nl] @ ''.nf'' @ [nl]"

definition codeCloseTag :: string where
  "codeCloseTag = [nl] @ ''.fi'' @ [nl] @ ''.RE'' @ [nl]"

definition quoteTag :: string where
  "quoteTag = [nl] @ ''.PP'' @ [nl] @ ''.RS'' @ [nl]"

definition quoteCloseTag :: string where
  "quoteCloseTag = [nl] @ ''.RE'' @ [nl]"

definition listTag :: string where
  "listTag = [nl] @ ''.RS'' @ [nl]"

definition listCloseTag :: string where
  "listCloseTag = [nl] @ ''.RE'' @ [nl]"

definition arglistTag :: string where
  "arglistTag = [nl] @ ''.TP'' @ [nl]"

definition tableStart :: string where
  "tableStart = [nl] @ ''.TS'' @ [nl] @ ''allbox;'' @ [nl]"

definition tableEnd :: string where
  "tableEnd = [nl] @ ''.TE'' @ [nl]"

definition tableCellStart :: string where
  "tableCellStart = [nl] @ ''T{'' @ [nl]"

definition tableCellEnd :: string where
  "tableCellEnd = [nl] @ ''T}'' @ [nl]"

definition bulletTag :: string where
  "bulletTag = ''.IP '' @ [backslash] @ ''(bu 2'' @ [nl]"

definition NewRoffRenderer :: roffRenderer where
  "NewRoffRenderer = \<lparr>ListCounters = [], firstHeader = False, defineTerm = False, inList = False\<rparr>"

definition RenderHeader :: "string list" where
  "RenderHeader = [''.nh'' @ [nl]]"

definition RenderFooter :: "string list" where
  "RenderFooter = []"

definition out :: "string \<Rightarrow> string list" where
  "out output = [output]"

definition intWrap :: "int \<Rightarrow> int" where
  "intWrap x = (x + 2 ^ 63) mod 2 ^ 64 - 2 ^ 63"

fun decimal :: "nat \<Rightarrow> string" where
  "decimal n =
     (if n < 10 then [''0123456789'' ! n]
      else decimal (n div 10) @ [''0123456789'' ! (n mod 10)])"

declare decimal.simps [simp del]

definition formatD3 :: "int \<Rightarrow> string" where
  "formatD3 x =
     (let digits = (if x < 0 then CHR ''-'' # decimal (nat (- x)) else decimal (nat x))
      in replicate (3 - length digits) (CHR '' '') @ digits)"

definition itemMarker :: "int \<Rightarrow> string" where
  "itemMarker x = ''.IP '' @ [dquote] @ formatD3 x @ ''.'' @ [dquote] @ '' 5'' @ [nl]"

definition Repeat :: "string \<Rightarrow> int \<Rightarrow> string" where
  "Repeat s count = concat (replicate (nat count) s)"

definition RenderNode ::
    "roffRenderer \<Rightarrow> NodeRef \<Rightarrow> bool \<Rightarrow> fault + WalkStatus \<times> roffRenderer \<times> string list" where
  "RenderNode r ref entering =
     (let n = node ref in
      case Type n of
        Text \<Rightarrow>
          (case Parent ref of
             None \<Rightarrow> Inl NilPointerDereference
           | Some p \<Rightarrow>
               let long = (Type p = TableCell \<and> 30 < length (Literal n));
                   start = (if long then tableCellStart else []);
                   end' = (if long then tableCellEnd else [])
               in Inr (GoToNext, r, out start @ escapeSpecialChars (Literal n) @ out end'))
      | Softbreak \<Rightarrow> Inr (GoToNext, r, out crTag)
      | Hardbreak \<Rightarrow> Inr (GoToNext, r, out breakTag)
      | Emph \<Rightarrow>
          if entering then Inr (GoToNext, r, out emphTag)
          else Inr (GoToNext, r, out emphCloseTag)
      | Strong \<Rightarrow>
          if entering then Inr (GoToNext, r, out strongTag)
          else Inr (GoToNext, r, out strongCloseTag)
      | Link \<Rightarrow>
          if entering then Inr (GoToNext, r, out (linkTag @ Destination n))
          else Inr (GoToNext, r, out linkCloseTag)
      | Image \<Rightarrow> Inr (SkipChildren, r, [])
      | Code \<Rightarrow>
          Inr (GoToNext, r,
               out codespanTag @ escapeSpecialChars (Literal n) @ out codespanCloseTag)
      | Document \<Rightarrow> Inr (GoToNext, r, [])
      | Paragraph \<Rightarrow>
          if inList r then Inr (GoToNext, r, [])
          else if entering then Inr (GoToNext, r, out paraTag)
          else Inr (GoToNext, r, out crTag)
      | BlockQuote \<Rightarrow>
          if entering then Inr (GoToNext, r, out quoteTag)
          else Inr (GoToNext, r, out quoteCloseTag)
      | Heading \<Rightarrow>
          if entering then
            (if Level n = 1 then
               (if firstHeader r = False
                then Inr (GoToNext, r\<lparr>firstHeader := True\<rparr>, out titleHeader)
                else Inr (GoToNext, r, out topLevelHeader))
             else if Level n = 2 then Inr (GoToNext, r, out secondLevelHdr)
             else Inr (GoToNext, r, out otherHeader))
          else Inr (GoToNext, r, [])
      | HorizontalRule \<Rightarrow> Inr (GoToNext, r, out hruleTag)
      | List \<Rightarrow>
          (let openTag = (if ListFlags n AND ListTypeDefinition \<noteq> 0 then [] else listTag);
               closeTag = (if ListFlags n AND ListTypeDefinition \<noteq> 0 then [] else listCloseTag)
           in if entering then
                (let r1 = r\<lparr>inList := True\<rparr>;
                     r2 = (if ListFlags n AND ListTypeOrdered \<noteq> 0
                           then r1\<lparr>ListCounters := ListCounters r1 @ [1]\<rparr> else r1)
                 in Inr (GoToNext, r2, out openTag))
              else if ListFlags n AND ListTypeOrdered \<noteq> 0 then
                (if ListCounters r = [] then Inl SliceBoundsOutOfRange
                 else Inr (GoToNext,
                           r\<lparr>ListCounters := take (length (ListCounters r) - 1) (ListCounters r),
                              inList := False\<rparr>,
                           out closeTag))
              else Inr (GoToNext, r\<lparr>inList := False\<rparr>, out closeTag))
      | Item \<Rightarrow>
          if entering then
            (if ListFlags n AND ListTypeOrdered \<noteq> 0 then
               (if ListCounters r = [] then Inl IndexOutOfRange
                else
                  (let top = length (ListCounters r) - 1;
                       counter = ListCounters r ! top
                   in Inr (GoToNext,
                           r\<lparr>ListCounters := (ListCounters r)[top := intWrap (counter + 1)]\<rparr>,
                           out (itemMarker counter))))
             else if ListFlags n AND ListTypeDefinition \<noteq> 0 then
               (if defineTerm r = False
                then Inr (GoToNext, r\<lparr>defineTerm := True\<rparr>, out arglistTag)
                else Inr (GoToNext, r\<lparr>defineTerm := False\<rparr>, []))
             else Inr (GoToNext, r, out bulletTag))
          else Inr (GoToNext, r, out [nl])
      | CodeBlock \<Rightarrow>
          Inr (GoToNext, r, out codeTag @ escapeSpecialChars (Literal n) @ out codeCloseTag)
      | Table \<Rightarrow>
          if entering then
            (case countColumns ref of
               Inl e \<Rightarrow> Inl e
             | Inr columns \<Rightarrow>
                 if columns < 0 then Inl NegativeRepeatCount
                 else Inr (GoToNext, r,
                           out tableStart @ out (Repeat ''l '' columns @ [nl])
                           @ out (Repeat ''l '' columns @ ''.'' @ [nl])))
          else Inr (GoToNext, r, out tableEnd)
      | TableCell \<Rightarrow>
          (let start = (if IsHeader n then codespanTag else []);
               end' = (if IsHeader n then codespanCloseTag else [])
           in if entering then
                (case Prev ref of
                   None \<Rightarrow> Inl NilPointerDereference
                 | Some q \<Rightarrow>
                     if Type q = TableCell then Inr (GoToNext, r, out ([tab] @ start))
                     else Inr (GoToNext, r, []))
              else Inr (GoToNext, r, out end'))
      | TableHead \<Rightarrow> Inr (GoToNext, r, [])
      | TableBody \<Rightarrow> Inr (GoToNext, r, [])
      | TableRow \<Rightarrow> Inr (GoToNext, r, out [nl])
      | _ \<Rightarrow> Inr (GoToNext, r, []))"

record Event =
  evNode :: NodeRef
  evEntering :: bool
  evState :: roffRenderer
  evOut :: "string list"

definition renderVisitor ::
    "NodeRef \<Rightarrow> bool \<Rightarrow> roffRenderer \<times> Event list
       \<Rightarrow> fault + WalkStatus \<times> roffRenderer \<times> Event list" where
  "renderVisitor ref entering s =
     (case RenderNode (fst s) ref entering of
        Inl e \<Rightarrow> Inl e
      | Inr (status, r', ws) \<Rightarrow>
          Inr (status, r',
               snd s @ [\<lparr>evNode = ref, evEntering = entering, evState = fst s, evOut = ws\<rparr>]))"

definition rootRef :: "Node \<Rightarrow> NodeRef" where
  "rootRef n = \<lparr>node = n, Parent = None, Prev = None, position = []\<rparr>"

definition Render :: "Node \<Rightarrow> fault + roffRenderer \<times> Event list" where
  "Render doc =
     (case Walk (rootRef doc) renderVisitor (NewRoffRenderer, []) of
        Inl e \<Rightarrow> Inl e
      | Inr (stopped, s) \<Rightarrow> Inr s)"

definition written :: "Event list \<Rightarrow> string" where
  "written evs = concat (concat (map evOut evs))"

subsection \<open>Notions used in the statements\<close>


text \<open>The call that enters the node at a given position.\<close>

definition entersAt :: "nat list \<Rightarrow> Event \<Rightarrow> bool" where
  "entersAt p e \<longleftrightarrow> position (evNode e) = p \<and> evEntering e"

text \<open>The test \<open>node.ListFlags&blackfriday.ListTypeOrdered != 0\<close>.\<close>

definition orderedFlag :: "Node \<Rightarrow> bool" where
  "orderedFlag n \<longleftrightarrow> ListFlags n AND ListTypeOrdered \<noteq> 0"








text \<open>
  A call on child \<open>j\<close> of the node at position \<open>p\<close>, or below that child, for some
  \<open>j\<close> from \<open>lo\<close> up to \<open>hi\<close> (excluded).
\<close>

definition childEvent :: "nat list \<Rightarrow> nat \<Rightarrow> nat \<Rightarrow> Event \<Rightarrow> bool" where
  "childEvent p lo hi e \<longleftrightarrow> (\<exists>j ks. lo \<le> j \<and> j < hi \<and> position (evNode e) = p @ j # ks)"





subsection \<open>Sample documents\<close>

definition mk :: "NodeType \<Rightarrow> Node list \<Rightarrow> Node" where
  "mk ty cs = Node ty [] 0 0 False [] cs"

definition textNode :: "string \<Rightarrow> Node" where
  "textNode s = Node Text s 0 0 False [] []"


definition listOf :: "int \<Rightarrow> Node list \<Rightarrow> Node" where
  "listOf fl cs = Node List [] 0 fl False [] cs"

definition item :: "int \<Rightarrow> Node list \<Rightarrow> Node" where
  "item fl cs = Node Item [] 0 fl False [] cs"

definition cell :: "bool \<Rightarrow> Node list \<Rightarrow> Node" where
  "cell hdr cs = Node TableCell [] 0 0 hdr [] cs"



definition sampleTable :: Node where
  "sampleTable =
     mk Table
       [mk TableHead [mk TableRow [cell True [textNode ''Name''], cell True [textNode ''Use'']]],
        mk TableBody [mk TableRow [cell False [textNode ''ls''], cell False [textNode ''list'']]]]"

definition nestedLists :: Node where
  "nestedLists =
     mk Document
       [listOf 0
          [item 0
             [mk Paragraph [textNode ''outer''],
              listOf 0 [item 0 [mk Paragraph [textNode ''inner'']]],
              mk Paragraph [textNode ''outer again'']]]]"

definition twoDefinitionLists :: Node where
  "twoDefinitionLists =
     mk Document
       [listOf 2
          [item 2 [mk Paragraph [textNode ''t'']], item 2 [mk Paragraph [textNode ''d1'']],
           item 2 [mk Paragraph [textNode ''d2'']]],
        mk Paragraph [textNode ''between''],
        listOf 2
          [item 2 [mk Paragraph [textNode ''term1'']], item 2 [mk Paragraph [textNode ''def1'']],
           item 2 [mk Paragraph [textNode ''term2'']], item 2 [mk Paragraph [textNode ''def2'']]]]"


section \<open>Properties\<close>

lemma needsBackslashIn_set: "needsBackslashIn c rs \<longleftrightarrow> c \<in> set rs"
  by (induction rs) auto

lemma needsBackslash_iff:
  "needsBackslash c \<longleftrightarrow> c \<in> {CHR ''-'', CHR ''_'', CHR ''&'', CHR 0x5C, CHR ''~''}"
  by (auto simp: needsBackslash_def needsBackslashIn_set escapeSet_def backslash_def)

lemma scanNormal_le: "i \<le> length tx \<Longrightarrow> scanNormal tx i \<le> length tx"
proof (induction tx i rule: scanNormal.induct)
  case (1 tx i)
  show ?case
  proof (cases "i < length tx \<and> \<not> needsBackslash (tx ! i)")
    case True
    with "1" show ?thesis by (simp add: scanNormal_step)
  next
    case False
    with "1.prems" show ?thesis
      by (cases "i < length tx") (simp_all add: scanNormal_stop_end scanNormal_stop_special)
  qed
qed

lemma scanNormal_run:
  "i \<le> k \<Longrightarrow> k < scanNormal tx i \<Longrightarrow> \<not> needsBackslash (tx ! k)"
proof (induction tx i rule: scanNormal.induct)
  case (1 tx i)
  show ?case
  proof (cases "i < length tx \<and> \<not> needsBackslash (tx ! i)")
    case True
    show ?thesis
    proof (cases "k = i")
      case True
      with \<open>i < length tx \<and> \<not> needsBackslash (tx ! i)\<close> show ?thesis by simp
    next
      case False
      with "1.prems" True have "Suc i \<le> k" "k < scanNormal tx (Suc i)"
        by (simp_all add: scanNormal_step)
      with "1.IH" True show ?thesis by blast
    qed
  next
    case False
    then have "scanNormal tx i = i"
      by (cases "i < length tx") (simp_all add: scanNormal_stop_end scanNormal_stop_special)
    with "1.prems" show ?thesis by simp
  qed
qed

lemma scanNormal_stops:
  "scanNormal tx i < length tx \<Longrightarrow> needsBackslash (tx ! scanNormal tx i)"
proof (induction tx i rule: scanNormal.induct)
  case (1 tx i)
  show ?case
  proof (cases "i < length tx \<and> \<not> needsBackslash (tx ! i)")
    case True
    with "1" show ?thesis by (simp add: scanNormal_step)
  next
    case False
    then have "scanNormal tx i = i"
      by (cases "i < length tx") (simp_all add: scanNormal_stop_end scanNormal_stop_special)
    with "1.prems" False show ?thesis by simp
  qed
qed

lemma slice_normal:
  "\<forall>c \<in> set (take (scanNormal tx i - i) (drop i tx)). \<not> needsBackslash c"
proof
  fix c assume "c \<in> set (take (scanNormal tx i - i) (drop i tx))"
  then obtain k where k: "k < length (take (scanNormal tx i - i) (drop i tx))"
      and c: "c = take (scanNormal tx i - i) (drop i tx) ! k"
    by (auto simp: in_set_conv_nth)
  from k have "k < scanNormal tx i - i" "i + k < length tx" by (simp, simp, arith)
  with c have "c = tx ! (i + k)" by simp
  moreover from \<open>k < scanNormal tx i - i\<close> have "\<not> needsBackslash (tx ! (i + k))"
    by (intro scanNormal_run [of i]) simp_all
  ultimately show "\<not> needsBackslash c" by simp
qed

lemma drop_split_at:
  assumes "i \<le> j" "j < length tx"
  shows "drop i tx = take (j - i) (drop i tx) @ tx ! j # drop (Suc j) tx"
proof -
  have "drop i tx = take (j - i) (drop i tx) @ drop (j - i) (drop i tx)"
    by (rule append_take_drop_id [symmetric])
  also from assms have "drop (j - i) (drop i tx) = drop j tx" by simp
  also from assms have "drop j tx = tx ! j # drop (Suc j) tx" by (simp add: Cons_nth_drop_Suc)
  finally show ?thesis .
qed

lemma scanNormal_all_normal:
  assumes "\<forall>c \<in> set tx. \<not> needsBackslash c"
  shows "scanNormal tx 0 = length tx"
proof (rule ccontr)
  assume "scanNormal tx 0 \<noteq> length tx"
  moreover have "scanNormal tx 0 \<le> length tx" by (simp add: scanNormal_le)
  ultimately have lt: "scanNormal tx 0 < length tx" by simp
  then have "needsBackslash (tx ! scanNormal tx 0)" by (rule scanNormal_stops)
  moreover from lt have "tx ! scanNormal tx 0 \<in> set tx" by simp
  ultimately show False using assms by blast
qed

lemma escapeFrom_end: "length tx \<le> i \<Longrightarrow> escapeFrom tx i = []"
  by (simp add: escapeFrom.simps [of tx i])

lemma escapeSpecialChars_all_normal:
  assumes "\<forall>c \<in> set tx. \<not> needsBackslash c"
  shows "concat (escapeSpecialChars tx) =
           (if tx \<noteq> [] \<and> (hd tx = apostrophe \<or> hd tx = CHR ''.'') then escapePrefix @ tx else tx)"
proof (cases "tx = []")
  case True
  then show ?thesis by (simp add: escapeSpecialChars_def escapeFrom_end)
next
  case False
  then have "tx ! 0 = hd tx" by (simp add: hd_conv_nth)
  moreover have "scanNormal tx 0 = length tx" using assms by (rule scanNormal_all_normal)
  ultimately show ?thesis using False
    by (simp add: escapeSpecialChars_def escapeFrom.simps [of tx 0] Let_def Suc_le_eq)
qed


lemma escapedFrom_normal_run:
  "\<forall>c \<in> set run. \<not> needsBackslash c \<Longrightarrow>
   escapedFrom pre b (run @ rest) =
     (if run = [] then escapedFrom pre b rest
      else (if b then pre else []) @ run @ escapedFrom pre False rest)"
proof (induction run arbitrary: b)
  case Nil
  then show ?case by simp
next
  case (Cons c run)
  then have c: "c \<notin> {CHR ''-'', CHR ''_'', CHR ''&'', CHR 0x5C, CHR ''~''}"
    and run: "\<forall>c \<in> set run. \<not> needsBackslash c"
    by (simp_all add: needsBackslash_iff)
  from Cons.IH [OF run, of False] c show ?case by simp
qed

lemma escapedFrom_special:
  "needsBackslash c \<Longrightarrow>
   escapedFrom pre b (c # rest) = (if b then pre else []) @ [CHR 0x5C, c] @ escapedFrom pre True rest"
  by (simp add: needsBackslash_iff)

lemma escapedFrom_no_prefix:
  "escapedFrom [] b tx =
     concat (map (\<lambda>c. if c \<in> {CHR ''-'', CHR ''_'', CHR ''&'', CHR 0x5C, CHR ''~''}
                        then [CHR 0x5C, c] else [c]) tx)"
  by (induction tx arbitrary: b) simp_all

lemma escapeFrom_bytes:
  "concat (escapeFrom tx i) =
     escapedFrom (if 1 \<le> length tx \<and> (tx ! 0 = apostrophe \<or> tx ! 0 = CHR ''.'')
                  then escapePrefix else []) True (drop i tx)"
proof (induction tx i rule: escapeFrom.induct)
  case (1 tx i)
  define pre where
    "pre = (if 1 \<le> length tx \<and> (tx ! 0 = apostrophe \<or> tx ! 0 = CHR ''.'') then escapePrefix else [])"
  show ?case unfolding pre_def [symmetric]
  proof (cases "i < length tx")
    case False
    then show "concat (escapeFrom tx i) = escapedFrom pre True (drop i tx)"
      by (simp add: escapeFrom_end)
  next
    case True
    define j where "j = scanNormal tx i"
    define run where "run = take (j - i) (drop i tx)"
    have ij: "i \<le> j" and jl: "j \<le> length tx"
      using True by (simp_all add: j_def scanNormal_ge scanNormal_le)
    have run_normal: "\<forall>c \<in> set run. \<not> needsBackslash c"
      unfolding run_def j_def by (rule slice_normal)
    have run_nil: "run = [] \<longleftrightarrow> \<not> i < j" using True jl by (auto simp: run_def)
    have code: "concat (escapeFrom tx i) =
        pre @ run @ (if length tx \<le> j then []
                     else [backslash, tx ! j] @ concat (escapeFrom tx (Suc j)))"
      using True run_nil
      by (auto simp: escapeFrom.simps [of tx i] Let_def j_def [symmetric] run_def [symmetric]
            pre_def)
    show "concat (escapeFrom tx i) = escapedFrom pre True (drop i tx)"
    proof (cases "length tx \<le> j")
      case True
      with jl have "j = length tx" by simp
      then have d: "drop i tx = run @ []" by (simp add: run_def)
      from \<open>j = length tx\<close> \<open>i < length tx\<close> have "run \<noteq> []" using run_nil by simp
      with escapedFrom_normal_run [OF run_normal, of pre True "[]"]
      have "escapedFrom pre True (run @ []) = pre @ run" by simp
      with code True d show ?thesis by simp
    next
      case False
      then have jlt: "j < length tx" by simp
      have sp: "needsBackslash (tx ! j)" using jlt unfolding j_def by (rule scanNormal_stops)
      have IH: "concat (escapeFrom tx (Suc j)) = escapedFrom pre True (drop (Suc j) tx)"
        using "1.IH" [OF \<open>i < length tx\<close> refl refl j_def refl] False
        by (simp add: pre_def)
      have d: "drop i tx = run @ tx ! j # drop (Suc j) tx"
        unfolding run_def using ij jlt by (rule drop_split_at)
      have "escapedFrom pre True (run @ tx ! j # drop (Suc j) tx) =
              pre @ run @ [CHR 0x5C, tx ! j] @ escapedFrom pre True (drop (Suc j) tx)"
        using escapedFrom_normal_run [OF run_normal, of pre True "tx ! j # drop (Suc j) tx"]
          escapedFrom_special [OF sp, of pre _ "drop (Suc j) tx"]
        by (cases "run = []") simp_all
      with code False d IH show ?thesis by (simp add: backslash_def)
    qed
  qed
qed

subsection \<open>Properties of the escaping routine\<close>

text \<open>
  C7. Exactly the five bytes \<open>- _ & \ ~\<close> need a backslash, and the bytes written by
  \<open>escapeSpecialChars\<close> are, for every input, the input with each occurrence of one of the
  five bytes written as exactly one backslash followed by the byte and every other byte
  copied, in the input's order. The only other bytes written are those of the zero-width
  prefix \<open>\&\<close>, for an input that begins with an apostrophe or a period: before the first
  byte and again before each byte that directly follows an escaped byte, never between a
  backslash and the byte it escapes. For any other input the output is exactly the
  byte-by-byte escaping.
\<close>

theorem escapeSpecialChars_escapes_each_special_byte_once:
  "(needsBackslash c \<longleftrightarrow> c \<in> {CHR ''-'', CHR ''_'', CHR ''&'', CHR 0x5C, CHR ''~''}) \<and>
   concat (escapeSpecialChars tx) =
     escapedFrom (if tx \<noteq> [] \<and> (hd tx = CHR 0x27 \<or> hd tx = CHR ''.'')
                  then [CHR 0x5C, CHR ''&''] else []) True tx \<and>
   escapedFrom [] True tx =
     concat (map (\<lambda>c. if c \<in> {CHR ''-'', CHR ''_'', CHR ''&'', CHR 0x5C, CHR ''~''}
                        then [CHR 0x5C, c] else [c]) tx)"
proof (intro conjI)
  show "needsBackslash c \<longleftrightarrow> c \<in> {CHR ''-'', CHR ''_'', CHR ''&'', CHR 0x5C, CHR ''~''}"
    by (rule needsBackslash_iff)
next
  have "(1 \<le> length tx \<and> (tx ! 0 = apostrophe \<or> tx ! 0 = CHR ''.'')) \<longleftrightarrow>
        (tx \<noteq> [] \<and> (hd tx = CHR 0x27 \<or> hd tx = CHR ''.''))"
    by (cases tx) (simp_all add: apostrophe_def)
  with escapeFrom_bytes [of tx 0]
  show "concat (escapeSpecialChars tx) =
     escapedFrom (if tx \<noteq> [] \<and> (hd tx = CHR 0x27 \<or> hd tx = CHR ''.'')
                  then [CHR 0x5C, CHR ''&''] else []) True tx"
    by (simp add: escapeSpecialChars_def escapePrefix_def backslash_def)
next
  show "escapedFrom [] True tx =
     concat (map (\<lambda>c. if c \<in> {CHR ''-'', CHR ''_'', CHR ''&'', CHR 0x5C, CHR ''~''}
                        then [CHR 0x5C, c] else [c]) tx)"
    by (rule escapedFrom_no_prefix)
qed

theorem escapeSpecialChars_escapes_each_special_byte_once_witness:
  "concat (escapeSpecialChars ''a-b_c'') =
     [CHR ''a'', CHR 0x5C, CHR ''-'', CHR ''b'', CHR 0x5C, CHR ''_'', CHR ''c''] \<and>
   concat (escapeSpecialChars ''.-x~'') =
     [CHR 0x5C, CHR ''&'', CHR ''.'', CHR 0x5C, CHR ''-'',
      CHR 0x5C, CHR ''&'', CHR ''x'', CHR 0x5C, CHR ''~'']"
  using escapeSpecialChars_escapes_each_special_byte_once [of "CHR ''-''" "''a-b_c''"]
    escapeSpecialChars_escapes_each_special_byte_once [of "CHR ''-''" "''.-x~''"]
  by simp

text \<open>
  C6, as the code has it. On an input with no byte of the escape set the output is the
  input, unchanged, when the input is empty or begins with neither an apostrophe nor a
  period; when it begins with one of them, the output is the zero-width prefix \<open>\&\<close>
  followed by the input, unchanged.
\<close>

theorem escapeSpecialChars_without_special_bytes:
  "\<forall>c \<in> set tx. \<not> needsBackslash c \<Longrightarrow>
   concat (escapeSpecialChars tx) =
     (if tx \<noteq> [] \<and> (hd tx = apostrophe \<or> hd tx = CHR ''.'') then escapePrefix @ tx else tx)"
  by (rule escapeSpecialChars_all_normal)

theorem escapeSpecialChars_without_special_bytes_witness:
  "concat (escapeSpecialChars ''man page'') = ''man page'' \<and>
   concat (escapeSpecialChars ''.SH'') = escapePrefix @ ''.SH''"
proof -
  have h1: "\<forall>c \<in> set ''man page''. \<not> needsBackslash c"
    by (simp add: needsBackslash_iff)
  have h2: "\<forall>c \<in> set ''.SH''. \<not> needsBackslash c"
    by (simp add: needsBackslash_iff)
  from escapeSpecialChars_without_special_bytes [OF h1]
    escapeSpecialChars_without_special_bytes [OF h2]
  show ?thesis
    by (simp add: apostrophe_def)
qed

text \<open>
  The claim as the specification states it (escaping is the identity on every input without
  a byte of the escape set) fails on the one-byte input \<open>"."\<close>: the period is not in the
  escape set, and the output is \<open>\&.\<close>.
\<close>

theorem escapeSpecialChars_not_identity_on_period:
  "\<not> needsBackslash (CHR ''.'') \<and>
   concat (escapeSpecialChars ''.'') = escapePrefix @ ''.'' \<and>
   concat (escapeSpecialChars ''.'') \<noteq> ''.''"
  by (simp add: needsBackslash_iff escapeSpecialChars_def escapeFrom.simps scanNormal.simps
        Let_def escapePrefix_def)

text \<open>
  C2 on the input \<open>".a-b"\<close>. The prefix test sits inside the outer loop, so the prefix is
  written at the start of every iteration: once before \<open>.a\<close> and once more after the
  escaped \<open>-\<close>. The bytes written are \<open>\&.a\-\&b\<close>.
\<close>

theorem escapeSpecialChars_repeats_prefix:
  "escapeSpecialChars ''.a-b'' = [escapePrefix, ''.a'', [backslash], ''-'', escapePrefix, ''b'']"
  by (simp add: escapeSpecialChars_def escapeFrom.simps scanNormal.simps Let_def
        needsBackslash_iff backslash_def apostrophe_def)

subsection \<open>The traversal\<close>



















subsection \<open>The first level-1 heading\<close>



subsection \<open>Tables\<close>

text \<open>
  C1 on a table whose first row has two cells. The visitor of \<open>countColumns\<close> returns
  \<open>Terminate\<close> at the end of its body for every row and every cell, so the traversal stops
  when it enters the first row, before any cell is counted: the count is 0, and the two
  format lines written on entering the table hold no column specifier.
\<close>

theorem countColumns_stops_at_first_row:
  "countColumns (rootRef sampleTable) = Inr 0 \<and>
   RenderNode NewRoffRenderer (rootRef sampleTable) True =
     Inr (GoToNext, NewRoffRenderer, [tableStart, [nl], ''.'' @ [nl]])"
  by code_simp

text \<open>
  C3 on the first cell of a row. The cell has no previous sibling, \<open>node.Prev\<close> is nil, and
  reading \<open>node.Prev.Type\<close> faults: entering the cell aborts the call, and with it the
  render of any document that holds a table.
\<close>

theorem first_table_cell_faults:
  "RenderNode NewRoffRenderer
     \<lparr>node = cell False [textNode ''ls''],
      Parent = Some (mk TableRow [cell False [textNode ''ls''], cell False [textNode ''list'']]),
      Prev = None, position = [0, 1, 0, 0]\<rparr> True = Inl NilPointerDereference \<and>
   Render (mk Document [sampleTable]) = Inl NilPointerDereference"
  by code_simp

text \<open>
  C5 on the header row \<open>Name | Use\<close>. Entering the first header cell writes no start marker
  (the call faults, and the only write of the start marker is in the branch for a cell with
  a previous cell); entering the second cell writes the tab and the start marker; leaving a
  header cell writes the close marker.
\<close>

theorem first_header_cell_gets_no_start_marker:
  "RenderNode NewRoffRenderer
     \<lparr>node = cell True [textNode ''Name''],
      Parent = Some (mk TableRow [cell True [textNode ''Name''], cell True [textNode ''Use'']]),
      Prev = None, position = [0, 0, 0, 0]\<rparr> True = Inl NilPointerDereference \<and>
   RenderNode NewRoffRenderer
     \<lparr>node = cell True [textNode ''Use''],
      Parent = Some (mk TableRow [cell True [textNode ''Name''], cell True [textNode ''Use'']]),
      Prev = Some (cell True [textNode ''Name'']), position = [0, 0, 0, 1]\<rparr> True =
     Inr (GoToNext, NewRoffRenderer, [[tab] @ codespanTag]) \<and>
   RenderNode NewRoffRenderer
     \<lparr>node = cell True [textNode ''Name''],
      Parent = Some (mk TableRow [cell True [textNode ''Name''], cell True [textNode ''Use'']]),
      Prev = None, position = [0, 0, 0, 0]\<rparr> False =
     Inr (GoToNext, NewRoffRenderer, [codespanCloseTag])"
  by code_simp

subsection \<open>Paragraphs in lists\<close>

text \<open>
  C4 on a list item that holds a paragraph, a nested list and a second paragraph. The first
  paragraph is entered with \<open>inList\<close> set and writes nothing. Leaving the nested list clears
  \<open>inList\<close> although the outer list is still open, so the second paragraph is entered with
  the flag cleared and writes the paragraph marker \<open>.PP\<close>.
\<close>

theorem paragraph_after_nested_list_breaks:
  "\<not> isl (Render nestedLists) \<and>
   map (\<lambda>e. (inList (evState e), evOut e))
     (filter (entersAt [0, 0, 0]) (snd (projr (Render nestedLists)))) = [(True, [])] \<and>
   map (\<lambda>e. (inList (evState e), evOut e))
     (filter (entersAt [0, 0, 2]) (snd (projr (Render nestedLists)))) = [(False, [paraTag])]"
  by code_simp

subsection \<open>Definition lists\<close>

text \<open>
  C9 on a document with a definition list of three items, a paragraph, and a definition
  list \<open>[term1, def1, term2, def2]\<close>. The flag \<open>defineTerm\<close> is not reset when a list is
  left: after the three items of the first list it is set, so in the second list items 1
  and 3 write nothing and items 2 and 4 write the term marker \<open>.TP\<close>.
\<close>

theorem second_definition_list_starts_with_definition:
  "\<not> isl (Render twoDefinitionLists) \<and>
   map (\<lambda>k. map evOut (filter (entersAt [0, k]) (snd (projr (Render twoDefinitionLists)))))
     [0, 1, 2] = [[[arglistTag]], [[]], [[arglistTag]]] \<and>
   map (\<lambda>k. map evOut (filter (entersAt [2, k]) (snd (projr (Render twoDefinitionLists)))))
     [0, 1, 2, 3] = [[[]], [[arglistTag]], [[]], [[arglistTag]]]"
  by code_simp

subsection \<open>Ordered lists\<close>











lemma RenderNode_leave_ordered_list:
  assumes "RenderNode r ref False = Inr (st, r', ws)"
    and "Type (node ref) = List" "orderedFlag (node ref)"
  shows "ListCounters r \<noteq> []"
  using assms
  by (auto simp: RenderNode_def Let_def orderedFlag_def split: if_splits)

















lemma childEvent_not_entersAt_self: "childEvent p lo hi e \<Longrightarrow> \<not> entersAt p e"
  unfolding childEvent_def entersAt_def by auto






















end
